theory Spec2Isabelle
  imports Main "HOL-Library.Signed_Division"
begin

section \<open>The Tensor container of \<^verbatim>\<open>include/tensor.h\<close>\<close>

text \<open>
  The C++ class \<^verbatim>\<open>Tensor<T>\<close> is embedded as a record with the four data members of
  the class, in the order of their declaration. C++ \<^verbatim>\<open>int\<close> is taken to be 32 bits wide.
  The products of the constructor (the element count and the offsets), which nothing in
  the source bounds, are computed in that width with the wrap-around written out
  (\<open>int32\<close>). The other \<^verbatim>\<open>int\<close> computations (flat offsets, coordinates, loop counters) are
  written in mathematical integers: on a tensor whose element count is an \<^verbatim>\<open>int\<close> they stay
  within the range of \<^verbatim>\<open>int\<close> as long as they address elements of the tensor. Allocation
  is taken to succeed (\<^verbatim>\<open>std::bad_alloc\<close> is not modelled).

  The element type \<^verbatim>\<open>T\<close> is a type variable; the arithmetic of the elements is that of
  the type classes \<open>zero\<close>, \<open>one\<close>, \<open>plus\<close>, \<open>minus\<close>, \<open>times\<close>, of which no law is assumed.
  The weight vectors, which the source fixes to \<^verbatim>\<open>double\<close>, have the element type as well
  (the class is used at \<^verbatim>\<open>T = double\<close>: \<^verbatim>\<open>operator()\<close> returns \<^verbatim>\<open>double&\<close>).

  What terminates or breaks an execution is a value of type \<open>error\<close>:
  \<^item> \<open>AssertionFailed\<close>: an \<^verbatim>\<open>assert\<close> of the source fails (assertions are compiled in);
  \<^item> \<open>OutOfBounds\<close>: a \<^verbatim>\<open>std::vector\<close> is read or written outside its bounds;
  \<^item> \<open>DivisionByZero\<close>: an \<^verbatim>\<open>int\<close> is divided by zero;
  \<^item> \<open>LengthError\<close>: \<^verbatim>\<open>std::vector\<close> throws \<^verbatim>\<open>std::length_error\<close>, as it does when a
    negative \<^verbatim>\<open>int\<close> is converted to the size of a \<^verbatim>\<open>resize\<close> or \<^verbatim>\<open>reserve\<close>;
  \<^item> \<open>MissingReturn\<close>: control reaches the end of a function that is declared to return
    a value and has no \<^verbatim>\<open>return\<close> statement (undefined behaviour in C++).
  A method that returns a value has result type \<open>error + 'r\<close>. A method that mutates the
  tensor has result type \<open>(error \<times> 'a Tensor) + 'a Tensor\<close>: \<open>Inr\<close> holds the tensor after
  the call, \<open>Inl\<close> holds the error together with the tensor as it is at the moment of the
  failure.
\<close>

datatype error = AssertionFailed | OutOfBounds | DivisionByZero | LengthError | MissingReturn

text \<open>
  \<open>int32 x\<close> is the 32-bit two's complement value congruent to \<open>x\<close> modulo \<open>2^32\<close>: the
  value a 32-bit \<^verbatim>\<open>int\<close> holds after an arithmetic operation whose exact result is \<open>x\<close>.
\<close>

definition int32 :: "int \<Rightarrow> int" where
  "int32 x = (x + 2147483648) mod 4294967296 - 2147483648"

record 'a Tensor =
  offsets :: "int list"
  nelem :: int
  dim :: "int list"
  vec :: "'a list"

subsection \<open>Construction\<close>

text \<open>
  The loop \<^verbatim>\<open>for (int i=ndim-1; i>=0; --i){ offsets[i] = p; p *= dim[i]; }\<close>. The \<open>nat\<close>
  argument is the loop variable plus one, so that the loop ends at \<open>0\<close>.
\<close>

fun offsets_loop :: "int list \<Rightarrow> nat \<Rightarrow> int \<Rightarrow> int list \<Rightarrow> int list" where
  "offsets_loop dims 0 p offs = offs"
| "offsets_loop dims (Suc i) p offs =
     offsets_loop dims i (int32 (p * dims ! i)) (offs[i := p])"

definition make_offsets :: "int list \<Rightarrow> int list" where
  "make_offsets dims = offsets_loop dims (length dims) 1 (replicate (length dims) 0)"

text \<open>
  The constructor. \<^verbatim>\<open>std::accumulate\<close> with \<^verbatim>\<open>std::multiplies<int>\<close> is a left fold of the
  32-bit multiplication from \<open>1\<close>; \<^verbatim>\<open>vec.resize(nelem)\<close> value-initialises the elements and
  throws when \<^verbatim>\<open>nelem\<close> is negative. The shape is not inspected anywhere else.
\<close>

definition construct :: "int list \<Rightarrow> error + ('a::zero) Tensor" where
  "construct dims =
     (let n = foldl (\<lambda>a b. int32 (a * b)) 1 dims in
      if n < 0 then Inl LengthError
      else Inr \<lparr>offsets = make_offsets dims, nelem = n, dim = dims,
                vec = replicate (nat n) 0\<rparr>)"

subsection \<open>Coordinates and flat offsets\<close>

text \<open>\<^verbatim>\<open>location\<close>: the loop \<^verbatim>\<open>loc += offsets[i]*ix[i]\<close> for \<open>i\<close> from \<open>ndim-1\<close> down to \<open>0\<close>.\<close>

fun location_loop :: "int list \<Rightarrow> int list \<Rightarrow> nat \<Rightarrow> int \<Rightarrow> error + int" where
  "location_loop offs ix 0 loc = Inr loc"
| "location_loop offs ix (Suc i) loc =
     (if i < length offs \<and> i < length ix
      then location_loop offs ix i (loc + offs ! i * ix ! i)
      else Inl OutOfBounds)"

definition location :: "'a Tensor \<Rightarrow> int list \<Rightarrow> error + int" where
  "location t ix = location_loop (offsets t) ix (length (dim t)) 0"

text \<open>
  \<^verbatim>\<open>index\<close>: C++ \<^verbatim>\<open>%\<close> and \<^verbatim>\<open>/\<close> truncate towards zero (\<open>smod\<close>, \<open>sdiv\<close>); the vector
  \<^verbatim>\<open>id\<close> of the source is \<open>ids\<close>.
\<close>

fun index_loop :: "int list \<Rightarrow> nat \<Rightarrow> int \<Rightarrow> int list \<Rightarrow> error + int list" where
  "index_loop dims 0 loc ids = Inr ids"
| "index_loop dims (Suc i) loc ids =
     (if dims ! i = 0 then Inl DivisionByZero
      else let ix = loc smod (dims ! i)
           in index_loop dims i ((loc - ix) sdiv (dims ! i)) (ids[i := ix]))"

definition index :: "'a Tensor \<Rightarrow> int \<Rightarrow> error + int list" where
  "index t loc = index_loop (dim t) (length (dim t)) loc (replicate (length (dim t)) 0)"

subsection \<open>Plane enumeration\<close>

text \<open>
  The loop of \<^verbatim>\<open>plane\<close>; \<open>axis\<close> is already the absolute position \<^verbatim>\<open>dim.size()-1-axis\<close>.
\<close>

function plane_loop :: "'a Tensor \<Rightarrow> int \<Rightarrow> int \<Rightarrow> int \<Rightarrow> int list \<Rightarrow> error + int list" where
  "plane_loop t axis k i locs =
     (if i < nelem t then
        (case index t i of
           Inl e \<Rightarrow> Inl e
         | Inr ids \<Rightarrow>
             if 0 \<le> axis \<and> axis < int (length ids) then
               if ids ! nat axis = 0 then
                 if axis < int (length (offsets t))
                 then plane_loop t axis k (i + 1) (locs @ [i + k * offsets t ! nat axis])
                 else Inl OutOfBounds
               else plane_loop t axis k (i + 1) locs
             else Inl OutOfBounds)
      else Inr locs)"
  by pat_completeness auto
termination
  by (relation "measure (\<lambda>(t, axis, k, i, locs). nat (nelem t - i))") auto

declare plane_loop.simps [simp del]

definition plane :: "'a Tensor \<Rightarrow> int \<Rightarrow> int \<Rightarrow> error + int list" where
  "plane t axis k =
     (if nelem t < 0 then Inl LengthError
      else plane_loop t (int (length (dim t)) - 1 - axis) k 0 [])"

subsection \<open>In-place axis transform\<close>

function transform_dim_loop ::
  "('a \<Rightarrow> 'a \<Rightarrow> 'a) \<Rightarrow> 'a list \<Rightarrow> nat \<Rightarrow> int \<Rightarrow> int \<Rightarrow> int \<Rightarrow> 'a Tensor
     \<Rightarrow> (error \<times> 'a Tensor) + 'a Tensor" where
  "transform_dim_loop binary_op w axis off i count t =
     (if count < dim t ! axis then
        if 0 \<le> i \<and> i < int (length (vec t)) \<and> 0 \<le> count \<and> count < int (length w)
        then transform_dim_loop binary_op w axis off (i + off) (count + 1)
               (t\<lparr>vec := (vec t)[nat i := binary_op (vec t ! nat i) (w ! nat count)]\<rparr>)
        else Inl (OutOfBounds, t)
      else Inr t)"
  by pat_completeness auto
termination
  by (relation "measure (\<lambda>(binary_op, w, axis, off, i, count, t). nat (dim t ! axis - count))")
     auto

declare transform_dim_loop.simps [simp del]

definition transform_dim ::
  "'a Tensor \<Rightarrow> int \<Rightarrow> int \<Rightarrow> ('a \<Rightarrow> 'a \<Rightarrow> 'a) \<Rightarrow> 'a list \<Rightarrow> (error \<times> 'a Tensor) + 'a Tensor" where
  "transform_dim t loc axis binary_op w =
     (let a = int (length (dim t)) - 1 - axis in
      if \<not> (0 \<le> a \<and> a < int (length (dim t))) then Inl (OutOfBounds, t)
      else if int (length w) \<noteq> dim t ! nat a then Inl (AssertionFailed, t)
      else if \<not> a < int (length (offsets t)) then Inl (OutOfBounds, t)
      else transform_dim_loop binary_op w (nat a) (offsets t ! nat a) loc 0 t)"

fun transform_loop ::
  "int \<Rightarrow> ('a \<Rightarrow> 'a \<Rightarrow> 'a) \<Rightarrow> 'a list \<Rightarrow> int list \<Rightarrow> 'a Tensor \<Rightarrow> (error \<times> 'a Tensor) + 'a Tensor" where
  "transform_loop axis binary_op w [] t = Inr t"
| "transform_loop axis binary_op w (l # locs) t =
     (case transform_dim t l axis binary_op w of
        Inl e \<Rightarrow> Inl e
      | Inr t' \<Rightarrow> transform_loop axis binary_op w locs t')"

definition transform ::
  "'a Tensor \<Rightarrow> int \<Rightarrow> ('a \<Rightarrow> 'a \<Rightarrow> 'a) \<Rightarrow> 'a list \<Rightarrow> (error \<times> 'a Tensor) + 'a Tensor" where
  "transform t axis binary_op w =
     (case plane t axis 0 of
        Inl e \<Rightarrow> Inl (e, t)
      | Inr locs \<Rightarrow> transform_loop axis binary_op w locs t)"

subsection \<open>Axis reduction\<close>

text \<open>
  The weight of a step of \<^verbatim>\<open>accumulate_dim\<close>:
  \<^verbatim>\<open>(weights.size()>0)? weights[count] : 1\<close>.
\<close>

definition weight_at :: "'a::one list \<Rightarrow> int \<Rightarrow> error + 'a" where
  "weight_at weights count =
     (if length weights > 0 then
        if 0 \<le> count \<and> count < int (length weights) then Inr (weights ! nat count)
        else Inl OutOfBounds
      else Inr 1)"

text \<open>The loop of \<^verbatim>\<open>accumulate_dim\<close>: \<open>v\<close> is the running value.\<close>

function accumulate_dim_loop ::
  "'a::{one,times} Tensor \<Rightarrow> ('a \<Rightarrow> 'a \<Rightarrow> 'a) \<Rightarrow> 'a list \<Rightarrow> nat \<Rightarrow> int \<Rightarrow> int \<Rightarrow> int \<Rightarrow> 'a
     \<Rightarrow> error + 'a" where
  "accumulate_dim_loop t binary_op weights axis off i count v =
     (if count < dim t ! axis then
        (case weight_at weights count of
           Inl e \<Rightarrow> Inl e
         | Inr w \<Rightarrow>
             if 0 \<le> i \<and> i < int (length (vec t))
             then accumulate_dim_loop t binary_op weights axis off (i + off) (count + 1)
                    (binary_op v (w * vec t ! nat i))
             else Inl OutOfBounds)
      else Inr v)"
  by pat_completeness auto
termination
  by (relation "measure (\<lambda>(t, binary_op, weights, axis, off, i, count, v).
        nat (dim t ! axis - count))") auto

declare accumulate_dim_loop.simps [simp del]

text \<open>
  \<^verbatim>\<open>accumulate_dim\<close>. The source takes the seed \<^verbatim>\<open>v0\<close> as its first parameter and then
  starts the loop from \<^verbatim>\<open>double v = 0\<close>; \<open>v0\<close> is not used in the body.
\<close>

definition accumulate_dim ::
  "'a::{zero,one,times} Tensor \<Rightarrow> 'a \<Rightarrow> int \<Rightarrow> int \<Rightarrow> ('a \<Rightarrow> 'a \<Rightarrow> 'a) \<Rightarrow> 'a list \<Rightarrow> error + 'a" where
  "accumulate_dim t v0 loc axis binary_op weights =
     (let a = int (length (dim t)) - 1 - axis in
      if \<not> (0 \<le> a \<and> a < int (length (dim t))) then Inl OutOfBounds
      else if \<not> (length weights = 0 \<or> int (length weights) = dim t ! nat a)
        then Inl AssertionFailed
      else if \<not> a < int (length (offsets t)) then Inl OutOfBounds
      else accumulate_dim_loop t binary_op weights (nat a) (offsets t ! nat a) loc 0 0)"

text \<open>
  The loop of \<^verbatim>\<open>accumulate\<close> over \<^verbatim>\<open>locs\<close>: \<open>i\<close> is the position written in the new
  tensor \<open>tens\<close>.
\<close>

fun accumulate_loop ::
  "'a::{zero,one,times} Tensor \<Rightarrow> 'a \<Rightarrow> int \<Rightarrow> ('a \<Rightarrow> 'a \<Rightarrow> 'a) \<Rightarrow> 'a list \<Rightarrow> int list \<Rightarrow> nat
     \<Rightarrow> 'a Tensor \<Rightarrow> error + 'a Tensor" where
  "accumulate_loop t v0 axis binary_op weights [] i tens = Inr tens"
| "accumulate_loop t v0 axis binary_op weights (l # locs) i tens =
     (case accumulate_dim t v0 l axis binary_op weights of
        Inl e \<Rightarrow> Inl e
      | Inr v \<Rightarrow>
          if i < length (vec tens)
          then accumulate_loop t v0 axis binary_op weights locs (Suc i)
                 (tens\<lparr>vec := (vec tens)[i := v]\<rparr>)
          else Inl OutOfBounds)"

text \<open>\<^verbatim>\<open>accumulate\<close>: \<^verbatim>\<open>dim_new.erase\<close> removes the entry at position \<open>a\<close>.\<close>

definition accumulate ::
  "'a::{zero,one,times} Tensor \<Rightarrow> 'a \<Rightarrow> int \<Rightarrow> ('a \<Rightarrow> 'a \<Rightarrow> 'a) \<Rightarrow> 'a list \<Rightarrow> error + 'a Tensor" where
  "accumulate t v0 axis binary_op weights =
     (let a = int (length (dim t)) - 1 - axis in
      if \<not> (0 \<le> a \<and> a < int (length (dim t))) then Inl OutOfBounds
      else
        (case construct (take (nat a) (dim t) @ drop (Suc (nat a)) (dim t)) of
           Inl e \<Rightarrow> Inl e
         | Inr tens \<Rightarrow>
             (case plane t axis 0 of
                Inl e \<Rightarrow> Inl e
              | Inr locs \<Rightarrow> accumulate_loop t v0 axis binary_op weights locs 0 tens)))"

text \<open>A read \<^verbatim>\<open>vec[i]\<close> of the buffer.\<close>

definition vec_at :: "'a Tensor \<Rightarrow> int \<Rightarrow> error + 'a" where
  "vec_at t i =
     (if 0 \<le> i \<and> i < int (length (vec t)) then Inr (vec t ! nat i) else Inl OutOfBounds)"

text \<open>\<^verbatim>\<open>max_dim\<close>: the seed is read from \<^verbatim>\<open>vec[1]\<close> before anything else happens.\<close>

definition max_dim :: "'a::{zero,one,times,linorder} Tensor \<Rightarrow> int \<Rightarrow> error + 'a Tensor" where
  "max_dim t axis =
     (case vec_at t 1 of
        Inl e \<Rightarrow> Inl e
      | Inr v0 \<Rightarrow> accumulate t v0 axis (\<lambda>a b. max a b) [])"

subsection \<open>Replication\<close>

text \<open>
  The two nested loops of \<^verbatim>\<open>repeat_inner\<close>. The inner loop returns the counter
  \<^verbatim>\<open>count\<close> with the tensor \<^verbatim>\<open>tout\<close>.
\<close>

function repeat_inner_row ::
  "'a Tensor \<Rightarrow> int \<Rightarrow> int \<Rightarrow> int \<Rightarrow> int \<Rightarrow> 'a Tensor \<Rightarrow> error + (int \<times> 'a Tensor)" where
  "repeat_inner_row t n i j count tout =
     (if j < n then
        if 0 \<le> i \<and> i < int (length (vec t)) \<and> 0 \<le> count \<and> count < int (length (vec tout))
        then repeat_inner_row t n i (j + 1) (count + 1)
               (tout\<lparr>vec := (vec tout)[nat count := vec t ! nat i]\<rparr>)
        else Inl OutOfBounds
      else Inr (count, tout))"
  by pat_completeness auto
termination
  by (relation "measure (\<lambda>(t, n, i, j, count, tout). nat (n - j))") auto

declare repeat_inner_row.simps [simp del]

function repeat_inner_loop ::
  "'a Tensor \<Rightarrow> int \<Rightarrow> int \<Rightarrow> int \<Rightarrow> 'a Tensor \<Rightarrow> error + 'a Tensor" where
  "repeat_inner_loop t n i count tout =
     (if i < nelem t then
        (case repeat_inner_row t n i 0 count tout of
           Inl e \<Rightarrow> Inl e
         | Inr (count', tout') \<Rightarrow> repeat_inner_loop t n (i + 1) count' tout')
      else Inr tout)"
  by pat_completeness auto
termination
  by (relation "measure (\<lambda>(t, n, i, count, tout). nat (nelem t - i))") auto

declare repeat_inner_loop.simps [simp del]

definition repeat_inner :: "'a::zero Tensor \<Rightarrow> int \<Rightarrow> error + 'a Tensor" where
  "repeat_inner t n =
     (case construct (dim t @ [n]) of
        Inl e \<Rightarrow> Inl e
      | Inr tout \<Rightarrow> repeat_inner_loop t n 0 0 tout)"

subsection \<open>Elementwise arithmetic\<close>

text \<open>
  \<^verbatim>\<open>std::transform(vec.begin(), vec.end(), rhs.vec.begin(), vec.begin(), op)\<close> writes
  \<open>op (vec[i]) (rhs.vec[i])\<close> over \<^verbatim>\<open>vec\<close> from the front; it reads past the end of
  \<^verbatim>\<open>rhs.vec\<close> when that is the shorter vector.
\<close>

definition std_transform2 ::
  "('a \<Rightarrow> 'a \<Rightarrow> 'a) \<Rightarrow> 'a Tensor \<Rightarrow> 'a Tensor \<Rightarrow> (error \<times> 'a Tensor) + 'a Tensor" where
  "std_transform2 op2 t rhs =
     (if length (vec rhs) < length (vec t)
      then Inl (OutOfBounds,
             t\<lparr>vec := map2 op2 (vec t) (vec rhs) @ drop (length (vec rhs)) (vec t)\<rparr>)
      else Inr (t\<lparr>vec := map2 op2 (vec t) (vec rhs)\<rparr>))"

text \<open>
  The compound operators \<^verbatim>\<open>+=\<close>, \<^verbatim>\<open>-=\<close>, \<^verbatim>\<open>*=\<close> with a tensor on the right: the
  assertion, then \<^verbatim>\<open>std::transform\<close>, then the end of the body. The operators are
  declared to return \<^verbatim>\<open>Tensor<T>&\<close> and their bodies have no \<^verbatim>\<open>return\<close> statement, so an
  execution that gets past \<^verbatim>\<open>std::transform\<close> ends in \<open>MissingReturn\<close>, with the tensor as
  the writes have left it.
\<close>

definition op_plus_assign ::
  "'a::plus Tensor \<Rightarrow> 'a Tensor \<Rightarrow> (error \<times> 'a Tensor) + 'a Tensor" where
  "op_plus_assign t rhs =
     (if dim t \<noteq> dim rhs then Inl (AssertionFailed, t)
      else case std_transform2 (+) t rhs of
             Inl e \<Rightarrow> Inl e
           | Inr t' \<Rightarrow> Inl (MissingReturn, t'))"

definition op_minus_assign ::
  "'a::minus Tensor \<Rightarrow> 'a Tensor \<Rightarrow> (error \<times> 'a Tensor) + 'a Tensor" where
  "op_minus_assign t rhs =
     (if dim t \<noteq> dim rhs then Inl (AssertionFailed, t)
      else case std_transform2 (-) t rhs of
             Inl e \<Rightarrow> Inl e
           | Inr t' \<Rightarrow> Inl (MissingReturn, t'))"

definition op_times_assign ::
  "'a::times Tensor \<Rightarrow> 'a Tensor \<Rightarrow> (error \<times> 'a Tensor) + 'a Tensor" where
  "op_times_assign t rhs =
     (if dim t \<noteq> dim rhs then Inl (AssertionFailed, t)
      else case std_transform2 (*) t rhs of
             Inl e \<Rightarrow> Inl e
           | Inr t' \<Rightarrow> Inl (MissingReturn, t'))"

text \<open>
  The compound operators \<^verbatim>\<open>+=\<close>, \<^verbatim>\<open>-=\<close>, \<^verbatim>\<open>*=\<close> with a scalar on the right:
  \<^verbatim>\<open>std::transform\<close> over the buffer, then the end of the body, again without a
  \<^verbatim>\<open>return\<close> statement.
\<close>

definition op_plus_assign_scalar ::
  "'a::plus Tensor \<Rightarrow> 'a \<Rightarrow> (error \<times> 'a Tensor) + 'a Tensor" where
  "op_plus_assign_scalar t s = Inl (MissingReturn, t\<lparr>vec := map (\<lambda>x. x + s) (vec t)\<rparr>)"

definition op_minus_assign_scalar ::
  "'a::minus Tensor \<Rightarrow> 'a \<Rightarrow> (error \<times> 'a Tensor) + 'a Tensor" where
  "op_minus_assign_scalar t s = Inl (MissingReturn, t\<lparr>vec := map (\<lambda>x. x - s) (vec t)\<rparr>)"

definition op_times_assign_scalar ::
  "'a::times Tensor \<Rightarrow> 'a \<Rightarrow> (error \<times> 'a Tensor) + 'a Tensor" where
  "op_times_assign_scalar t s = Inl (MissingReturn, t\<lparr>vec := map (\<lambda>x. x * s) (vec t)\<rparr>)"

text \<open>
  The free operators on two tensors take \<^verbatim>\<open>lhs\<close> by value: they assert, apply the
  compound operator to the copy and return the copy.
\<close>

definition op_plus :: "'a::plus Tensor \<Rightarrow> 'a Tensor \<Rightarrow> error + 'a Tensor" where
  "op_plus lhs rhs =
     (if dim lhs \<noteq> dim rhs then Inl AssertionFailed
      else case op_plus_assign lhs rhs of Inl (e, lhs') \<Rightarrow> Inl e | Inr lhs' \<Rightarrow> Inr lhs')"

definition op_minus :: "'a::minus Tensor \<Rightarrow> 'a Tensor \<Rightarrow> error + 'a Tensor" where
  "op_minus lhs rhs =
     (if dim lhs \<noteq> dim rhs then Inl AssertionFailed
      else case op_minus_assign lhs rhs of Inl (e, lhs') \<Rightarrow> Inl e | Inr lhs' \<Rightarrow> Inr lhs')"

definition op_times :: "'a::times Tensor \<Rightarrow> 'a Tensor \<Rightarrow> error + 'a Tensor" where
  "op_times lhs rhs =
     (if dim lhs \<noteq> dim rhs then Inl AssertionFailed
      else case op_times_assign lhs rhs of Inl (e, lhs') \<Rightarrow> Inl e | Inr lhs' \<Rightarrow> Inr lhs')"

text \<open>
  The free operators with the scalar on the right, \<^verbatim>\<open>lhs += s; return lhs;\<close> and its
  like, on the copy \<^verbatim>\<open>lhs\<close>. A failure is reported with the copy as it is at that moment.
\<close>

definition op_plus_scalar ::
  "'a::plus Tensor \<Rightarrow> 'a \<Rightarrow> (error \<times> 'a Tensor) + 'a Tensor" where
  "op_plus_scalar lhs s =
     (case op_plus_assign_scalar lhs s of Inl e \<Rightarrow> Inl e | Inr lhs' \<Rightarrow> Inr lhs')"

definition op_minus_scalar ::
  "'a::minus Tensor \<Rightarrow> 'a \<Rightarrow> (error \<times> 'a Tensor) + 'a Tensor" where
  "op_minus_scalar lhs s =
     (case op_minus_assign_scalar lhs s of Inl e \<Rightarrow> Inl e | Inr lhs' \<Rightarrow> Inr lhs')"

definition op_times_scalar ::
  "'a::times Tensor \<Rightarrow> 'a \<Rightarrow> (error \<times> 'a Tensor) + 'a Tensor" where
  "op_times_scalar lhs s =
     (case op_times_assign_scalar lhs s of Inl e \<Rightarrow> Inl e | Inr lhs' \<Rightarrow> Inr lhs')"

text \<open>
  The free operators with the scalar on the left: \<^verbatim>\<open>return t+s;\<close>, \<^verbatim>\<open>return t-s;\<close>,
  \<^verbatim>\<open>return t*s;\<close>.
\<close>

definition op_scalar_plus ::
  "'a::plus \<Rightarrow> 'a Tensor \<Rightarrow> (error \<times> 'a Tensor) + 'a Tensor" where
  "op_scalar_plus s t = op_plus_scalar t s"

definition op_scalar_minus ::
  "'a::minus \<Rightarrow> 'a Tensor \<Rightarrow> (error \<times> 'a Tensor) + 'a Tensor" where
  "op_scalar_minus s t = op_minus_scalar t s"

definition op_scalar_times ::
  "'a::times \<Rightarrow> 'a Tensor \<Rightarrow> (error \<times> 'a Tensor) + 'a Tensor" where
  "op_scalar_times s t = op_times_scalar t s"

subsection \<open>Tensors as the constructor makes them\<close>

text \<open>
  \<open>invar\<close> holds of a tensor whose private members are what the constructor computes from
  \<open>dim\<close> when none of its products overflows, and whose buffer has \<open>nelem\<close> elements:
  \<open>nelem\<close> is the product of the extents and \<open>offsets[j]\<close> the product of the extents after
  position \<open>j\<close>. \<open>positive_dims\<close> says that every extent is at least \<open>1\<close>.
\<close>

definition invar :: "'a Tensor \<Rightarrow> bool" where
  "invar t \<longleftrightarrow>
     nelem t = prod_list (dim t) \<and>
     offsets t = map (\<lambda>j. prod_list (drop (Suc j) (dim t))) [0..<length (dim t)] \<and>
     int (length (vec t)) = nelem t"

definition positive_dims :: "'a Tensor \<Rightarrow> bool" where
  "positive_dims t \<longleftrightarrow> list_all (\<lambda>d. 0 < d) (dim t)"

text \<open>
  \<open>valid_coords\<close>: a coordinate tuple with one entry per axis, each within the extent of
  its axis.
\<close>

definition valid_coords :: "'a Tensor \<Rightarrow> int list \<Rightarrow> bool" where
  "valid_coords t c \<longleftrightarrow> list_all2 (\<lambda>x d. 0 \<le> x \<and> x < d) c (dim t)"

text \<open>
  \<open>state_of\<close>: the tensor a mutating method leaves behind, whether it returned or failed;
  \<open>same_shape\<close>: the members other than the element values agree.
\<close>

definition state_of :: "(error \<times> 'a Tensor) + 'a Tensor \<Rightarrow> 'a Tensor" where
  "state_of r = (case r of Inl (e, t) \<Rightarrow> t | Inr t \<Rightarrow> t)"

definition same_shape :: "'a Tensor \<Rightarrow> 'a Tensor \<Rightarrow> bool" where
  "same_shape t t' \<longleftrightarrow>
     dim t' = dim t \<and> offsets t' = offsets t \<and> nelem t' = nelem t \<and>
     length (vec t') = length (vec t)"

section \<open>Auxiliary facts\<close>

subsection \<open>Products, truncating division and mixed-radix digits\<close>

lemma int32_id: "- 2147483648 \<le> x \<Longrightarrow> x \<le> 2147483647 \<Longrightarrow> int32 x = x"
  by (simp add: int32_def)

lemma int32_mod: "int32 x mod 4294967296 = x mod 4294967296"
proof -
  have "((x + 2147483648) mod 4294967296 - 2147483648) mod 4294967296
          = (x + 2147483648 - 2147483648) mod 4294967296"
    by (rule mod_diff_left_eq)
  then show ?thesis by (simp add: int32_def)
qed

lemma int32_cong: "x mod 4294967296 = y mod 4294967296 \<Longrightarrow> int32 x = int32 y"
proof -
  assume e: "x mod 4294967296 = y mod 4294967296"
  have "(x + 2147483648) mod 4294967296 = (x mod 4294967296 + 2147483648) mod 4294967296"
    by (simp add: mod_add_left_eq)
  also have "\<dots> = (y + 2147483648) mod 4294967296"
    unfolding e by (simp add: mod_add_left_eq)
  finally show ?thesis by (simp add: int32_def)
qed

lemma int32_mult_left: "int32 (int32 x * y) = int32 (x * y)"
proof (rule int32_cong)
  have "(int32 x * y) mod 4294967296 = (int32 x mod 4294967296 * y) mod 4294967296"
    by (simp add: mod_mult_left_eq)
  also have "\<dots> = (x * y) mod 4294967296"
    unfolding int32_mod by (simp add: mod_mult_left_eq)
  finally show "(int32 x * y) mod 4294967296 = (x * y) mod 4294967296" .
qed

lemma int32_idem: "int32 (int32 x) = int32 x"
  using int32_mult_left[of x 1] by simp

lemma foldl_int32_prod_list:
  "foldl (\<lambda>a b. int32 (a * b)) (int32 a) xs = int32 (a * prod_list xs)"
proof (induction xs arbitrary: a)
  case Nil
  then show ?case by (simp add: int32_idem)
next
  case (Cons x xs)
  have "foldl (\<lambda>a b. int32 (a * b)) (int32 a) (x # xs)
          = foldl (\<lambda>a b. int32 (a * b)) (int32 (a * x)) xs"
    by (simp add: int32_mult_left)
  also have "\<dots> = int32 (a * x * prod_list xs)" by (rule Cons.IH)
  finally show ?case by (simp add: mult.assoc)
qed

lemma construct_nelem: "foldl (\<lambda>a b. int32 (a * b)) 1 dims = int32 (prod_list dims)"
  using foldl_int32_prod_list[of 1 dims] by (simp add: int32_id)

lemma offsets_loop_nth:
  "i \<le> length dims \<Longrightarrow> length offs = length dims \<Longrightarrow> p = int32 (prod_list (drop i dims)) \<Longrightarrow>
   length (offsets_loop dims i p offs) = length dims \<and>
   (\<forall>j<length dims. offsets_loop dims i p offs ! j =
        (if j < i then int32 (prod_list (drop (Suc j) dims)) else offs ! j))"
proof (induction i arbitrary: p offs)
  case 0
  then show ?case by simp
next
  case (Suc i)
  have d: "drop i dims = dims ! i # drop (Suc i) dims"
    using Suc.prems(1) by (simp add: Cons_nth_drop_Suc)
  have p': "int32 (p * dims ! i) = int32 (prod_list (drop i dims))"
    unfolding Suc.prems(3) int32_mult_left d by (simp add: mult.commute)
  have "length (offs[i := p]) = length dims" using Suc.prems(2) by simp
  from Suc.IH[OF _ this p'] Suc.prems show ?case
    by (auto simp: nth_list_update less_Suc_eq)
qed

lemma length_make_offsets: "length (make_offsets dims) = length dims"
  using offsets_loop_nth[of "length dims" dims "replicate (length dims) 0" 1]
  by (simp add: make_offsets_def int32_id)

lemma make_offsets_nth:
  "j < length dims \<Longrightarrow> make_offsets dims ! j = int32 (prod_list (drop (Suc j) dims))"
  using offsets_loop_nth[of "length dims" dims "replicate (length dims) 0" 1]
  by (simp add: make_offsets_def int32_id)

lemma location_loop_sum:
  "i \<le> length offs \<Longrightarrow> i \<le> length ix \<Longrightarrow>
   location_loop offs ix i loc = Inr (loc + (\<Sum>j<i. offs ! j * ix ! j))"
  by (induction i arbitrary: loc) (simp_all add: add.assoc add.commute)

lemma smod_nonneg_pos: "0 \<le> a \<Longrightarrow> 0 < b \<Longrightarrow> a smod b = a mod (b::int)"
  by (simp add: smod_int_alt_def sgn_if)

lemma sdiv_nonneg_pos: "0 \<le> a \<Longrightarrow> 0 < b \<Longrightarrow> a sdiv b = a div (b::int)"
  by (simp add: signed_divide_int_def sgn_if)

lemma index_step_div:
  assumes "0 \<le> loc" "0 < (d::int)"
  shows "(loc - loc smod d) sdiv d = loc div d"
proof -
  have m: "loc smod d = loc mod d" using assms by (rule smod_nonneg_pos)
  have e: "loc - loc mod d = loc div d * d" by (simp add: minus_mod_eq_div_mult)
  have "0 \<le> loc div d" using assms by (simp add: pos_imp_zdiv_nonneg_iff)
  then have "0 \<le> loc div d * d" using assms(2) by simp
  then have "(loc div d * d) sdiv d = (loc div d * d) div d"
    using assms(2) by (rule sdiv_nonneg_pos)
  then show ?thesis using m e assms(2) by simp
qed

lemma prod_list_pos: "\<forall>x\<in>set xs. 0 < x \<Longrightarrow> 0 < prod_list (xs :: int list)"
  by (induction xs) simp_all

lemma prod_list_drop_take_Suc:
  assumes "j < i" "i < length (dims :: int list)"
  shows "prod_list (drop (Suc j) (take (Suc i) dims)) = prod_list (drop (Suc j) (take i dims)) * dims ! i"
proof -
  have "take (Suc i) dims = take i dims @ [dims ! i]"
    using assms(2) by (simp add: take_Suc_conv_app_nth)
  then show ?thesis using assms by simp
qed

lemma index_loop_nth:
  "i \<le> length dims \<Longrightarrow> length ids = length dims \<Longrightarrow> \<forall>j<i. 0 < dims ! j \<Longrightarrow> 0 \<le> loc \<Longrightarrow>
   \<exists>r. index_loop dims i loc ids = Inr r \<and> length r = length dims \<and>
       (\<forall>j<length dims. r ! j =
          (if j < i then (loc div prod_list (drop (Suc j) (take i dims))) mod dims ! j
           else ids ! j))"
proof (induction i arbitrary: loc ids)
  case 0
  then show ?case by simp
next
  case (Suc i)
  let ?d = "dims ! i"
  have dpos: "0 < ?d" using Suc.prems(3) by simp
  have sm: "loc smod ?d = loc mod ?d"
    using Suc.prems(4) dpos by (rule smod_nonneg_pos)
  have sd: "(loc - loc smod ?d) sdiv ?d = loc div ?d"
    using Suc.prems(4) dpos by (rule index_step_div)
  have q: "0 \<le> loc div ?d" using Suc.prems(4) dpos by (simp add: pos_imp_zdiv_nonneg_iff)
  have step: "index_loop dims (Suc i) loc ids = index_loop dims i (loc div ?d) (ids[i := loc mod ?d])"
    using dpos sm sd by (simp add: Let_def)
  have il: "i \<le> length dims" and len: "length (ids[i := loc mod ?d]) = length dims"
    and pos: "\<forall>j<i. 0 < dims ! j"
    using Suc.prems by simp_all
  from Suc.IH[OF il len pos q] obtain r where
    r: "index_loop dims i (loc div ?d) (ids[i := loc mod ?d]) = Inr r" "length r = length dims"
    and rn: "\<forall>j<length dims. r ! j =
          (if j < i then ((loc div ?d) div prod_list (drop (Suc j) (take i dims))) mod dims ! j
           else (ids[i := loc mod ?d]) ! j)"
    by blast
  have "r ! j = (if j < Suc i then (loc div prod_list (drop (Suc j) (take (Suc i) dims))) mod dims ! j
           else ids ! j)" if j: "j < length dims" for j
  proof (cases "j < i")
    case True
    have "\<forall>x\<in>set (drop (Suc j) (take i dims)). 0 < x"
    proof
      fix x assume "x \<in> set (drop (Suc j) (take i dims))"
      then have "x \<in> set (take i dims)" by (rule in_set_dropD)
      then obtain k where "k < i" "x = dims ! k"
        using Suc.prems(1) by (auto simp: in_set_conv_nth)
      then show "0 < x" using Suc.prems(3) by simp
    qed
    then have pp: "0 \<le> prod_list (drop (Suc j) (take i dims))"
      using prod_list_pos by fastforce
    have "prod_list (drop (Suc j) (take (Suc i) dims)) = ?d * prod_list (drop (Suc j) (take i dims))"
      using True Suc.prems(1) by (simp add: prod_list_drop_take_Suc)
    then have "loc div prod_list (drop (Suc j) (take (Suc i) dims)) = (loc div ?d) div prod_list (drop (Suc j) (take i dims))"
      using pp by (simp add: zdiv_zmult2_eq)
    then show ?thesis using rn j True by simp
  next
    case False
    show ?thesis
    proof (cases "j = i")
      case True
      then show ?thesis using rn j Suc.prems(1,2) by simp
    next
      case False
      then show ?thesis using rn j \<open>\<not> j < i\<close> by simp
    qed
  qed
  then show ?case using step r by simp
qed


lemma radix_sum_mod:
  "\<forall>d\<in>set ds. 0 < d \<Longrightarrow>
   (\<Sum>j<length ds. prod_list (drop (Suc j) ds) * ((x div prod_list (drop (Suc j) ds)) mod ds ! j))
     = x mod prod_list (ds :: int list)"
proof (induction ds)
  case Nil
  then show ?case by simp
next
  case (Cons d ds)
  have IH: "(\<Sum>j<length ds. prod_list (drop (Suc j) ds) * ((x div prod_list (drop (Suc j) ds)) mod ds ! j))
     = x mod prod_list ds"
    using Cons by simp
  have dpos: "0 \<le> d" using Cons.prems by simp
  have "x mod (prod_list ds * d) = prod_list ds * (x div prod_list ds mod d) + x mod prod_list ds"
    using dpos by (rule zmod_zmult2_eq)
  moreover have "(\<Sum>j<length (d # ds). prod_list (drop (Suc j) (d # ds)) *
        ((x div prod_list (drop (Suc j) (d # ds))) mod (d # ds) ! j))
      = prod_list ds * (x div prod_list ds mod d) + x mod prod_list ds"
    unfolding length_Cons sum.lessThan_Suc_shift using IH by simp
  ultimately show ?case by (simp only: prod_list.Cons mult.commute)
qed

lemma radix_digits:
  "list_all2 (\<lambda>c d. 0 \<le> c \<and> c < d) cs (ds :: int list) \<Longrightarrow>
   0 \<le> (\<Sum>j<length ds. prod_list (drop (Suc j) ds) * cs ! j) \<and>
   (\<Sum>j<length ds. prod_list (drop (Suc j) ds) * cs ! j) < prod_list ds \<and>
   (\<forall>j<length ds. ((\<Sum>j<length ds. prod_list (drop (Suc j) ds) * cs ! j)
        div prod_list (drop (Suc j) ds)) mod ds ! j = cs ! j)"
proof (induction cs ds rule: list_all2_induct)
  case Nil
  then show ?case by simp
next
  case (Cons c cs d ds)
  define S where "S = (\<Sum>j<length ds. prod_list (drop (Suc j) ds) * cs ! j)"
  define P where "P = prod_list ds"
  have S0: "0 \<le> S" and SP: "S < P"
    and dig: "\<forall>j<length ds. (S div prod_list (drop (Suc j) ds)) mod ds ! j = cs ! j"
    using Cons.IH by (simp_all add: S_def P_def)
  have Ppos: "0 < P" using S0 SP by simp
  have S': "(\<Sum>j<length (d # ds). prod_list (drop (Suc j) (d # ds)) * (c # cs) ! j) = P * c + S"
    unfolding length_Cons sum.lessThan_Suc_shift by (simp add: S_def P_def)
  have c: "0 \<le> c" "c < d" using Cons.hyps by simp_all
  have nonneg: "0 \<le> P * c + S" using Ppos c S0 by simp
  have "P * c \<le> P * (d - 1)" using Ppos c by (intro mult_left_mono) simp_all
  then have upper: "P * c + S < d * P" using SP by (simp add: algebra_simps)
  have d0: "(P * c + S) div P mod d = c"
  proof -
    have "(P * c + S) div P = c + S div P" using Ppos by simp
    moreover have "S div P = 0" using S0 SP by simp
    ultimately show ?thesis using c by simp
  qed
  have dS: "((P * c + S) div prod_list (drop (Suc j) ds)) mod ds ! j = cs ! j"
    if j: "j < length ds" for j
  proof -
    define Q where "Q = prod_list (drop (Suc j) ds)"
    have split: "ds = take j ds @ ds ! j # drop (Suc j) ds"
      using j by (rule id_take_nth_drop)
    have "P = prod_list (take j ds @ ds ! j # drop (Suc j) ds)"
      unfolding P_def using split by simp
    then have PQ: "P = Q * (ds ! j * prod_list (take j ds))"
      by (simp add: Q_def mult_ac)
    have "0 \<noteq> Q" using Ppos PQ by auto
    then have "(P * c + S) div Q = ds ! j * (prod_list (take j ds) * c) + S div Q"
      unfolding PQ by (simp add: mult.assoc)
    then have "(P * c + S) div Q mod ds ! j = (S div Q) mod ds ! j"
      by simp
    then show ?thesis using dig j by (simp add: Q_def)
  qed
  have "\<forall>j<length (d # ds). ((P * c + S) div prod_list (drop (Suc j) (d # ds))) mod (d # ds) ! j
          = (c # cs) ! j"
  proof (intro allI impI)
    fix j assume "j < length (d # ds)"
    then show "((P * c + S) div prod_list (drop (Suc j) (d # ds))) mod (d # ds) ! j = (c # cs) ! j"
      using d0 dS by (cases j) (simp_all add: P_def)
  qed
  then show ?case
    unfolding S' using nonneg upper by (simp add: P_def mult.commute)
qed

subsection \<open>The constructor's members, \<^verbatim>\<open>index\<close> and \<^verbatim>\<open>location\<close> in closed form\<close>

lemma positive_dims_nth: "positive_dims t \<Longrightarrow> j < length (dim t) \<Longrightarrow> 0 < dim t ! j"
  by (simp add: positive_dims_def list_all_length)

lemma positive_dims_set: "positive_dims t \<Longrightarrow> \<forall>d\<in>set (dim t). 0 < d"
  by (simp add: positive_dims_def list_all_iff)




lemma invar_nelem: "invar t \<Longrightarrow> nelem t = prod_list (dim t)"
  by (simp add: invar_def)

lemma index_digits:
  assumes "positive_dims t" "0 \<le> x"
  shows "\<exists>r. index t x = Inr r \<and> length r = length (dim t) \<and>
           (\<forall>j<length (dim t). r ! j = (x div prod_list (drop (Suc j) (dim t))) mod dim t ! j)"
proof -
  have "\<forall>j<length (dim t). 0 < dim t ! j"
    using assms(1) by (simp add: positive_dims_nth)
  from index_loop_nth[OF le_refl _ this assms(2), of "replicate (length (dim t)) 0"]
  show ?thesis by (simp add: index_def)
qed

lemma location_sum:
  assumes "invar t" "length c = length (dim t)"
  shows "location t c = Inr (\<Sum>j<length (dim t). prod_list (drop (Suc j) (dim t)) * c ! j)"
proof -
  have "offsets t = map (\<lambda>j. prod_list (drop (Suc j) (dim t))) [0..<length (dim t)]"
    using assms(1) by (simp add: invar_def)
  then have "length (offsets t) = length (dim t)"
    and "\<forall>j<length (dim t). offsets t ! j = prod_list (drop (Suc j) (dim t))"
    by simp_all
  then show ?thesis
    using assms(2) by (simp add: location_def location_loop_sum)
qed

lemma invar_offsets:
  "invar t \<Longrightarrow> length (offsets t) = length (dim t)"
  "invar t \<Longrightarrow> a < length (dim t) \<Longrightarrow> offsets t ! a = prod_list (drop (Suc a) (dim t))"
  by (simp_all add: invar_def)

subsection \<open>Counting the offsets with coordinate \<open>0\<close> on one axis\<close>

lemma axis_zero_block:
  assumes s: "0 < (s::int)" and d: "0 < d" and x: "h * (d * s) \<le> x" "x < h * (d * s) + d * s"
  shows "(x div s) mod d = 0 \<longleftrightarrow> x < h * (d * s) + s"
proof -
  define r where "r = x - h * (d * s)"
  have r: "0 \<le> r" "r < d * s" using x by (simp_all add: r_def)
  have xe: "x = s * (h * d) + r" by (simp add: r_def algebra_simps)
  have "x div s = h * d + r div s" unfolding xe using s by simp
  then have "(x div s) mod d = (r div s) mod d" by (simp add: mod_add_left_eq mult.commute)
  moreover have "0 \<le> r div s" using r s by (simp add: pos_imp_zdiv_nonneg_iff)
  moreover have "r div s < d"
  proof (rule ccontr)
    assume "\<not> r div s < d"
    then have "d * s \<le> (r div s) * s" using s by (intro mult_right_mono) simp_all
    moreover have "(r div s) * s = r - r mod s" by (simp add: minus_mod_eq_div_mult)
    moreover have "0 \<le> r mod s" using s by simp
    ultimately show False using r(2) by linarith
  qed
  ultimately have "(x div s) mod d = r div s" by simp
  moreover have "r div s = 0 \<longleftrightarrow> r < s" using r s
    by (auto simp: zdiv_eq_0_iff)
  ultimately show ?thesis unfolding r_def by linarith
qed

lemma card_axis_zero:
  assumes s: "0 < (s::int)" and d: "0 < d"
  shows "card {x. 0 \<le> x \<and> x < int H * (d * s) \<and> (x div s) mod d = 0} = H * nat s"
proof (induction H)
  case 0
  have "card {x. 0 \<le> x \<and> x < int 0 * (d * s) \<and> (x div s) mod d = 0} = card ({} :: int set)"
    by (rule arg_cong[where f = card]) auto
  then show ?case by simp
next
  case (Suc H)
  let ?N = "int H * (d * s)"
  let ?A = "{x. 0 \<le> x \<and> x < ?N \<and> (x div s) mod d = 0}"
  let ?B = "{?N ..< ?N + s}"
  have ds: "0 < d * s" using s d by simp
  have N0: "0 \<le> ?N" using ds by simp
  have "s \<le> d * s" using s d by (simp add: mult_le_cancel_right1)
  have "{x. 0 \<le> x \<and> x < int (Suc H) * (d * s) \<and> (x div s) mod d = 0} = ?A \<union> ?B"
  proof (intro set_eqI iffI)
    fix x assume "x \<in> {x. 0 \<le> x \<and> x < int (Suc H) * (d * s) \<and> (x div s) mod d = 0}"
    then have x: "0 \<le> x" "x < ?N + d * s" "(x div s) mod d = 0"
      by (simp_all add: algebra_simps)
    show "x \<in> ?A \<union> ?B"
    proof (cases "x < ?N")
      case True
      then show ?thesis using x by simp
    next
      case False
      then have "?N \<le> x" by simp
      from axis_zero_block[OF s d this x(2)] x(3) have "x < ?N + s" by simp
      then show ?thesis using \<open>?N \<le> x\<close> by simp
    qed
  next
    fix x assume "x \<in> ?A \<union> ?B"
    then show "x \<in> {x. 0 \<le> x \<and> x < int (Suc H) * (d * s) \<and> (x div s) mod d = 0}"
    proof
      assume "x \<in> ?A"
      then show ?thesis using ds by (simp add: algebra_simps)
    next
      assume "x \<in> ?B"
      then have b: "?N \<le> x" "x < ?N + s" by simp_all
      then have u: "x < ?N + d * s" using \<open>s \<le> d * s\<close> by linarith
      from axis_zero_block[OF s d b(1) u] b(2) have "(x div s) mod d = 0" by simp
      then show ?thesis using b N0 u by (simp add: algebra_simps)
    qed
  qed
  moreover have "finite ?A"
  proof (rule finite_subset)
    show "?A \<subseteq> {0 ..< ?N}" by auto
  qed simp
  moreover have "?A \<inter> ?B = {}" by auto
  ultimately have "card {x. 0 \<le> x \<and> x < int (Suc H) * (d * s) \<and> (x div s) mod d = 0}
      = card ?A + card ?B"
    by (simp add: card_Un_disjoint)
  then show ?case using Suc.IH s by simp
qed

lemma length_filter_upto:
  "length (filter P [0..n - 1]) = card {x. 0 \<le> x \<and> x < (n::int) \<and> P x}"
proof -
  have "length (filter P [0..n - 1]) = card ({x. P x} \<inter> set [0..n - 1])"
    by (simp add: distinct_length_filter)
  also have "{x. P x} \<inter> set [0..n - 1] = {x. 0 \<le> x \<and> x < n \<and> P x}" by auto
  finally show ?thesis .
qed

lemma plane_loop_filter:
  assumes "invar t" "positive_dims t" "a < length (dim t)"
  shows "0 \<le> i \<Longrightarrow> plane_loop t (int a) k i locs =
     Inr (locs @ map (\<lambda>j. j + k * offsets t ! a)
            (filter (\<lambda>j. (j div offsets t ! a) mod dim t ! a = 0) [i..nelem t - 1]))"
proof (induction "nat (nelem t - i)" arbitrary: i locs)
  case 0
  then have "\<not> i < nelem t" by simp
  then show ?case by (simp add: plane_loop.simps[of t "int a" k i locs])
next
  case (Suc n)
  then have lt: "i < nelem t" by simp
  from index_digits[OF assms(2) Suc.prems] obtain r where
    r: "index t i = Inr r" "length r = length (dim t)"
    and rn: "\<forall>j<length (dim t). r ! j = (i div prod_list (drop (Suc j) (dim t))) mod dim t ! j"
    by blast
  have ra: "r ! a = (i div offsets t ! a) mod dim t ! a"
    using rn assms(1,3) by (simp add: invar_offsets)
  have n: "n = nat (nelem t - (i + 1))" using Suc.hyps(2) by simp
  have i1: "0 \<le> i + 1" using Suc.prems by simp
  have up: "[i..nelem t - 1] = i # [i + 1..nelem t - 1]"
    using lt by (simp add: upto_rec1)
  show ?case
  proof (cases "r ! a = 0")
    case True
    have "plane_loop t (int a) k i locs = plane_loop t (int a) k (i + 1) (locs @ [i + k * offsets t ! a])"
      using lt r assms(1,3) True by (simp add: plane_loop.simps[of t "int a" k i locs] invar_offsets)
    then show ?thesis
      using Suc.hyps(1)[OF n i1, of "locs @ [i + k * offsets t ! a]"] up True ra by simp
  next
    case False
    have "plane_loop t (int a) k i locs = plane_loop t (int a) k (i + 1) locs"
      using lt r assms(1,3) False by (simp add: plane_loop.simps[of t "int a" k i locs])
    then show ?thesis
      using Suc.hyps(1)[OF n i1, of locs] up False ra by simp
  qed
qed

lemma prod_list_split:
  "a < length (ds :: int list) \<Longrightarrow>
   prod_list ds = prod_list (take a ds) * (ds ! a * prod_list (drop (Suc a) ds))"
proof -
  assume "a < length ds"
  then have "ds = take a ds @ ds ! a # drop (Suc a) ds" by (rule id_take_nth_drop)
  then have "prod_list ds = prod_list (take a ds @ ds ! a # drop (Suc a) ds)" by simp
  then show ?thesis by simp
qed

subsection \<open>Mutating loops keep the shape\<close>

lemma same_shape_refl: "same_shape t t"
  by (simp add: same_shape_def)

lemma same_shape_trans: "same_shape t t' \<Longrightarrow> same_shape t' t'' \<Longrightarrow> same_shape t t''"
  by (simp add: same_shape_def)

lemma same_shape_vec_update: "same_shape t (t\<lparr>vec := (vec t)[i := v]\<rparr>)"
  by (simp add: same_shape_def)

lemma state_of_simps:
  "state_of (Inl (e, t)) = t" "state_of (Inr t) = t"
  by (simp_all add: state_of_def)

lemma transform_dim_loop_shape:
  "same_shape t (state_of (transform_dim_loop binary_op w axis off i count t))"
proof (induction binary_op w axis off i count t rule: transform_dim_loop.induct)
  case (1 binary_op w axis off i count t)
  show ?case
  proof (cases "count < dim t ! axis \<and>
      (0 \<le> i \<and> i < int (length (vec t)) \<and> 0 \<le> count \<and> count < int (length w))")
    case True
    let ?t' = "t\<lparr>vec := (vec t)[nat i := binary_op (vec t ! nat i) (w ! nat count)]\<rparr>"
    have "same_shape ?t' (state_of (transform_dim_loop binary_op w axis off (i + off) (count + 1) ?t'))"
      using True "1.IH" by blast
    then have "same_shape t (state_of (transform_dim_loop binary_op w axis off (i + off) (count + 1) ?t'))"
      by (rule same_shape_trans[OF same_shape_vec_update])
    then show ?thesis
      using True by (subst transform_dim_loop.simps) simp
  next
    case False
    then show ?thesis
      by (subst transform_dim_loop.simps) (auto simp: state_of_simps same_shape_refl)
  qed
qed

lemma transform_dim_shape:
  "same_shape t (state_of (transform_dim t loc axis binary_op w))"
  by (simp add: transform_dim_def Let_def state_of_simps same_shape_refl transform_dim_loop_shape)

lemma transform_loop_shape:
  "same_shape t (state_of (transform_loop axis binary_op w locs t))"
proof (induction locs arbitrary: t)
  case Nil
  then show ?case by (simp add: state_of_simps same_shape_refl)
next
  case (Cons l locs)
  show ?case
  proof (cases "transform_dim t l axis binary_op w")
    case (Inl p)
    then show ?thesis
      using transform_dim_shape[of t l axis binary_op w] by simp
  next
    case (Inr t')
    then have "same_shape t t'"
      using transform_dim_shape[of t l axis binary_op w] by (simp add: state_of_simps)
    moreover have "same_shape t' (state_of (transform_loop axis binary_op w locs t'))"
      by (rule Cons.IH)
    ultimately show ?thesis
      using Inr by (simp add: same_shape_trans)
  qed
qed

lemma transform_shape:
  "same_shape t (state_of (transform t axis binary_op w))"
proof (cases "plane t axis 0")
  case (Inl e)
  then show ?thesis by (simp add: transform_def state_of_simps same_shape_refl)
next
  case (Inr locs)
  then show ?thesis by (simp add: transform_def transform_loop_shape)
qed

lemma std_transform2_shape: "same_shape t (state_of (std_transform2 op2 t rhs))"
  by (simp add: std_transform2_def state_of_simps same_shape_def)

lemma compound_tensor_shape:
  "same_shape t (state_of (op_plus_assign t rhs))"
  "same_shape t (state_of (op_minus_assign t rhs))"
  "same_shape t (state_of (op_times_assign t rhs))"
proof -
  have "same_shape t (state_of (case std_transform2 op2 t rhs of
            Inl e \<Rightarrow> Inl e | Inr t' \<Rightarrow> Inl (MissingReturn, t')))" for op2 :: "'a \<Rightarrow> 'a \<Rightarrow> 'a"
    using std_transform2_shape[of t op2 rhs]
    by (cases "std_transform2 op2 t rhs") (auto simp: state_of_def)
  then show "same_shape t (state_of (op_plus_assign t rhs))"
    "same_shape t (state_of (op_minus_assign t rhs))"
    "same_shape t (state_of (op_times_assign t rhs))"
    by (simp_all add: op_plus_assign_def op_minus_assign_def op_times_assign_def
          state_of_simps same_shape_refl)
qed

lemma compound_scalar_shape:
  "same_shape t (state_of (op_plus_assign_scalar t s))"
  "same_shape t (state_of (op_minus_assign_scalar t s'))"
  "same_shape t (state_of (op_times_assign_scalar t s''))"
  by (simp_all add: op_plus_assign_scalar_def op_minus_assign_scalar_def
        op_times_assign_scalar_def state_of_simps same_shape_def)

subsection \<open>The loops of \<^verbatim>\<open>repeat_inner\<close>\<close>




text \<open>
  Where \<open>nelem * n\<close> is not an \<^verbatim>\<open>int\<close>: \<^verbatim>\<open>repeat_inner(65536)\<close> on a tensor of shape
  \<open>[65536]\<close> constructs a tensor whose element count has wrapped around to \<open>0\<close>, and the
  first write of the loop is outside its buffer.
\<close>

lemma repeat_inner_overflow_example:
  "repeat_inner \<lparr>offsets = [1], nelem = 65536, dim = [65536], vec = replicate 65536 (0 :: int)\<rparr>
     65536 = Inl OutOfBounds"
proof -
  let ?t = "\<lparr>offsets = [1], nelem = 65536, dim = [65536], vec = replicate 65536 (0 :: int)\<rparr>"
  let ?tout = "\<lparr>offsets = [65536, 1], nelem = 0, dim = [65536, 65536], vec = [] :: int list\<rparr>"
  have c: "(construct [65536, 65536] :: error + int Tensor) = Inr ?tout"
    by code_simp
  have row: "repeat_inner_row ?t 65536 0 0 0 ?tout = Inl OutOfBounds"
    by (subst repeat_inner_row.simps) simp
  have "repeat_inner_loop ?t 65536 0 0 ?tout = Inl OutOfBounds"
    by (subst repeat_inner_loop.simps) (simp add: row)
  then show ?thesis by (simp add: repeat_inner_def c)
qed

subsection \<open>What \<^verbatim>\<open>accumulate_dim\<close> computes\<close>

text \<open>
  When the axis exists, the weights are absent or as many as the extent of the axis, and
  every step of the line stays inside the buffer, \<^verbatim>\<open>accumulate_dim\<close> returns the left
  fold of \<open>binary_op\<close> over the weighted elements of the line in increasing step order,
  seeded with \<open>0\<close>.
\<close>

lemma accumulate_dim_loop_fold:
  assumes w: "weights = [] \<or> int (length weights) = dim t ! a"
    and b: "\<forall>m. 0 \<le> m \<and> m < dim t ! a \<longrightarrow>
              0 \<le> loc + m * off \<and> loc + m * off < int (length (vec t))"
  shows "0 \<le> count \<Longrightarrow>
     accumulate_dim_loop t binary_op weights a off (loc + count * off) count v =
       Inr (foldl (\<lambda>v m. binary_op v ((if weights = [] then 1 else weights ! nat m) *
                                        vec t ! nat (loc + m * off)))
              v [count..dim t ! a - 1])"
proof (induction "nat (dim t ! a - count)" arbitrary: count v)
  case 0
  then have "\<not> count < dim t ! a" by simp
  then show ?case
    by (subst accumulate_dim_loop.simps) (simp add: upto_empty)
next
  case (Suc n)
  then have lt: "count < dim t ! a" by simp
  have wa: "weight_at weights count = Inr (if weights = [] then 1 else weights ! nat count)"
    using w lt Suc.prems by (auto simp: weight_at_def)
  have ib: "0 \<le> loc + count * off \<and> loc + count * off < int (length (vec t))"
    using b lt Suc.prems by simp
  have n: "n = nat (dim t ! a - (count + 1))" using Suc.hyps(2) by simp
  have c1: "0 \<le> count + 1" using Suc.prems by simp
  have e: "loc + count * off + off = loc + (count + 1) * off" by (simp add: algebra_simps)
  have up: "[count..dim t ! a - 1] = count # [count + 1..dim t ! a - 1]"
    using lt by (simp add: upto_rec1)
  show ?case
    using lt wa ib Suc.hyps(1)[OF n c1] up
    by (subst accumulate_dim_loop.simps) (simp add: e)
qed

lemma accumulate_dim_fold:
  assumes "0 \<le> axis" "axis < int (length (dim t))" "length (offsets t) = length (dim t)"
    and "weights = [] \<or> int (length weights) = dim t ! (length (dim t) - 1 - nat axis)"
    and "\<forall>m. 0 \<le> m \<and> m < dim t ! (length (dim t) - 1 - nat axis) \<longrightarrow>
              0 \<le> loc + m * offsets t ! (length (dim t) - 1 - nat axis) \<and>
              loc + m * offsets t ! (length (dim t) - 1 - nat axis) < int (length (vec t))"
  shows "accumulate_dim t v0 loc axis binary_op weights =
       Inr (foldl (\<lambda>v m. binary_op v ((if weights = [] then 1 else weights ! nat m) *
                  vec t ! nat (loc + m * offsets t ! (length (dim t) - 1 - nat axis))))
              0 [0..dim t ! (length (dim t) - 1 - nat axis) - 1])"
proof -
  define a where "a = length (dim t) - 1 - nat axis"
  have a: "nat (int (length (dim t)) - 1 - axis) = a" "a < length (dim t)"
    using assms(1,2) by (auto simp: a_def)
  have r: "0 \<le> int (length (dim t)) - 1 - axis \<and> int (length (dim t)) - 1 - axis < int (length (dim t))"
    using assms(1,2) by simp
  from accumulate_dim_loop_fold[OF assms(4,5)[folded a_def], of 0 binary_op 0]
  show ?thesis
    using r a assms(3,4) unfolding a_def[symmetric]
    by (auto simp: accumulate_dim_def Let_def)
qed

section \<open>Properties\<close>

subsection \<open>The seed of \<^verbatim>\<open>accumulate_dim\<close>\<close>

text \<open>
  C1. The claim: \<^verbatim>\<open>accumulate_dim(initial, startOffset, axis, binaryOp, weights)\<close> folds
  \<open>binaryOp\<close> over the elements of the line, starting from \<open>initial\<close>, so that the result
  depends on \<open>initial\<close>. The source starts from \<open>0\<close> whatever the seed is: the result for
  any seed is the result for the seed \<open>0\<close>, and on the one-axis tensor holding \<open>1, 2, 3\<close>,
  summing from the seed \<open>10\<close> returns \<open>6\<close>, where the claim has \<open>16\<close>.
\<close>

theorem accumulate_dim_seed_ignored:
  "accumulate_dim t v0 loc axis binary_op weights = accumulate_dim t 0 loc axis binary_op weights \<and>
   accumulate_dim \<lparr>offsets = [1], nelem = 3, dim = [3], vec = [1, 2, 3 :: int]\<rparr> 10 0 0 (+) []
     = Inr 6"
proof
  show "accumulate_dim t v0 loc axis binary_op weights = accumulate_dim t 0 loc axis binary_op weights"
    by (simp add: accumulate_dim_def)
  show "accumulate_dim \<lparr>offsets = [1], nelem = 3, dim = [3], vec = [1, 2, 3 :: int]\<rparr> 10 0 0 (+) []
     = Inr 6"
    by code_simp
qed

subsection \<open>Scalar minus tensor\<close>

text \<open>
  C2. The claim: \<^verbatim>\<open>s - t\<close> holds \<open>s\<close> minus each element of \<open>t\<close>. The source computes
  \<^verbatim>\<open>t - s\<close>: for \<open>s = 5\<close> and the elements \<open>1, 2\<close> the elements written are \<open>-4, -3\<close>, where the
  claim has \<open>4, 3\<close>. They are written by \<^verbatim>\<open>operator-=\<close>, whose body then ends without a
  \<^verbatim>\<open>return\<close> statement.
\<close>

theorem scalar_minus_tensor_reordered:
  "op_scalar_minus 5 \<lparr>offsets = [1], nelem = 2, dim = [2], vec = [1, 2 :: int]\<rparr>
     = Inl (MissingReturn, \<lparr>offsets = [1], nelem = 2, dim = [2], vec = [- 4, - 3]\<rparr>)"
  by (simp add: op_scalar_minus_def op_minus_scalar_def op_minus_assign_scalar_def)

subsection \<open>The example of \<^verbatim>\<open>transform_dim\<close>\<close>

text \<open>
  C3, as stated, fails. In the shape \<open>[2,3,5]\<close> the innermost axis has five elements, so
  \<^verbatim>\<open>transform_dim\<close> on axis \<open>0\<close> with three weights fails its assertion and the first three
  elements stay \<open>0, 0, 0\<close>. In the shape \<open>[2,5,3]\<close>, whose innermost axis has three elements,
  the call returns and the three elements are \<open>1, 2, 3\<close>: each element is combined with its
  own weight, no value is carried from one step to the next.
\<close>

theorem transform_dim_example_counterexample:
  "take 3 (vec (state_of (transform_dim
      \<lparr>offsets = [15, 5, 1], nelem = 30, dim = [2, 3, 5], vec = replicate 30 (0 :: int)\<rparr>
      0 0 (\<lambda>acc w. acc * 2 + w) [1, 2, 3]))) \<noteq> [1, 4, 11] \<and>
   take 3 (vec (state_of (transform_dim
      \<lparr>offsets = [15, 3, 1], nelem = 30, dim = [2, 5, 3], vec = replicate 30 (0 :: int)\<rparr>
      0 0 (\<lambda>acc w. acc * 2 + w) [1, 2, 3]))) \<noteq> [1, 4, 11]"
  by code_simp

text \<open>
  C3, amended. For the zero tensor of shape \<open>[2,5,3]\<close>, \<^verbatim>\<open>transform_dim\<close> from offset \<open>0\<close>
  on axis \<open>0\<close> with \<open>f acc w = acc * 2 + w\<close> and the weights \<open>1, 2, 3\<close> leaves the elements at
  the offsets \<open>0, 1, 2\<close> equal to \<open>1, 2, 3\<close> and every other element \<open>0\<close>; for the zero tensor
  of shape \<open>[2,3,5]\<close> the same call fails the assertion on the number of weights and
  leaves the tensor as it was.
\<close>

theorem transform_dim_example:
  "(construct [2, 5, 3] :: error + int Tensor) =
      Inr \<lparr>offsets = [15, 3, 1], nelem = 30, dim = [2, 5, 3], vec = replicate 30 0\<rparr> \<and>
   transform_dim
      \<lparr>offsets = [15, 3, 1], nelem = 30, dim = [2, 5, 3], vec = replicate 30 (0 :: int)\<rparr>
      0 0 (\<lambda>acc w. acc * 2 + w) [1, 2, 3] =
      Inr \<lparr>offsets = [15, 3, 1], nelem = 30, dim = [2, 5, 3],
           vec = [1, 2, 3] @ replicate 27 0\<rparr> \<and>
   (construct [2, 3, 5] :: error + int Tensor) =
      Inr \<lparr>offsets = [15, 5, 1], nelem = 30, dim = [2, 3, 5], vec = replicate 30 0\<rparr> \<and>
   transform_dim
      \<lparr>offsets = [15, 5, 1], nelem = 30, dim = [2, 3, 5], vec = replicate 30 (0 :: int)\<rparr>
      0 0 (\<lambda>acc w. acc * 2 + w) [1, 2, 3] =
      Inl (AssertionFailed,
           \<lparr>offsets = [15, 5, 1], nelem = 30, dim = [2, 3, 5], vec = replicate 30 0\<rparr>)"
  by code_simp

subsection \<open>Shapes with a dimension that is not positive\<close>

text \<open>
  C4, as stated, fails: the constructor does not look at the single dimensions. For the
  shape \<open>[2,0,3]\<close> it returns a tensor with that shape, no element and the offsets
  \<open>[0,3,1]\<close>.
\<close>

theorem construct_counterexample:
  "(construct [2, 0, 3] :: error + int Tensor) =
     Inr \<lparr>offsets = [0, 3, 1], nelem = 0, dim = [2, 0, 3], vec = []\<rparr>"
  by code_simp

text \<open>
  C4, amended. The constructor validates nothing and has no error of its own. A shape
  that contains the dimension \<open>0\<close> gives a tensor with that shape, \<open>nelem = 0\<close> and an empty
  buffer. In general \<open>nelem\<close> is the product of the dimensions as 32-bit \<^verbatim>\<open>int\<close>
  multiplication computes it: when that value is not negative (so also for an even
  number of negative dimensions, or when the product wraps around to such a value) the
  constructor gives a tensor with the requested shape and that many zero elements; when
  it is negative the constructor fails, with the \<^verbatim>\<open>std::length_error\<close> of \<^verbatim>\<open>vec.resize\<close>.
  In each case \<open>offsets[j]\<close> is the 32-bit product of the dimensions after position \<open>j\<close>.
\<close>

theorem construct_nonpositive_dims:
  "(0 \<in> set shape \<longrightarrow>
      (construct shape :: error + 'a::zero Tensor) =
        Inr \<lparr>offsets = map (\<lambda>j. int32 (prod_list (drop (Suc j) shape))) [0..<length shape],
             nelem = 0, dim = shape, vec = []\<rparr>) \<and>
   (0 \<le> int32 (prod_list shape) \<longrightarrow>
      (construct shape :: error + 'a Tensor) =
        Inr \<lparr>offsets = map (\<lambda>j. int32 (prod_list (drop (Suc j) shape))) [0..<length shape],
             nelem = int32 (prod_list shape), dim = shape,
             vec = replicate (nat (int32 (prod_list shape))) 0\<rparr>) \<and>
   (int32 (prod_list shape) < 0 \<longrightarrow> (construct shape :: error + 'a Tensor) = Inl LengthError)"
proof -
  have o: "make_offsets shape =
      map (\<lambda>j. int32 (prod_list (drop (Suc j) shape))) [0..<length shape]"
    by (intro nth_equalityI) (simp_all add: length_make_offsets make_offsets_nth)
  have z: "int32 (prod_list shape) = 0" if "0 \<in> set shape"
  proof -
    have "prod_list shape = 0" using that by (simp add: prod_list_zero_iff)
    then show ?thesis by (simp add: int32_def)
  qed
  show ?thesis
    using o z by (auto simp: construct_def construct_nelem Let_def)
qed

theorem construct_nonpositive_dims_witness:
  "(0::int) \<in> set [2, 0, 3] \<and>
   (construct [2, 0, 3] :: error + int Tensor) =
      Inr \<lparr>offsets = [0, 3, 1], nelem = 0, dim = [2, 0, 3], vec = []\<rparr> \<and>
   (0::int) \<le> int32 (prod_list [- 2, - 3]) \<and>
   (construct [- 2, - 3] :: error + int Tensor) =
      Inr \<lparr>offsets = [- 3, 1], nelem = 6, dim = [- 2, - 3], vec = replicate 6 0\<rparr> \<and>
   int32 (prod_list [- 2, 3]) < 0 \<and>
   (construct [- 2, 3] :: error + int Tensor) = Inl LengthError \<and>
   (0::int) \<in> set [0, 65536, 65536] \<and>
   (construct [0, 65536, 65536] :: error + int Tensor) =
      Inr \<lparr>offsets = [0, 65536, 1], nelem = 0, dim = [0, 65536, 65536], vec = []\<rparr> \<and>
   (0::int) \<le> int32 (prod_list [65536, 65536]) \<and>
   (construct [65536, 65536] :: error + int Tensor) =
      Inr \<lparr>offsets = [65536, 1], nelem = 0, dim = [65536, 65536], vec = []\<rparr>"
proof -
  have e: "map (\<lambda>j. int32 (prod_list (drop (Suc j) [2, 0, 3]))) [0..<length [2, 0, 3 :: int]]
             = [0, 3, 1]"
    "map (\<lambda>j. int32 (prod_list (drop (Suc j) [- 2, - 3]))) [0..<length [- 2, - 3 :: int]]
             = [- 3, 1]"
    "map (\<lambda>j. int32 (prod_list (drop (Suc j) [0, 65536, 65536])))
        [0..<length [0, 65536, 65536 :: int]] = [0, 65536, 1]"
    "map (\<lambda>j. int32 (prod_list (drop (Suc j) [65536, 65536]))) [0..<length [65536, 65536 :: int]]
             = [65536, 1]"
    "int32 (prod_list [- 2, - 3]) = 6" "int32 (prod_list [- 2, 3]) = - 6"
    "int32 (prod_list [65536, 65536]) = 0"
    by code_simp+
  show ?thesis
    using construct_nonpositive_dims[of "[2, 0, 3]", where 'a = int]
      construct_nonpositive_dims[of "[- 2, - 3]", where 'a = int]
      construct_nonpositive_dims[of "[- 2, 3]", where 'a = int]
      construct_nonpositive_dims[of "[0, 65536, 65536]", where 'a = int]
      construct_nonpositive_dims[of "[65536, 65536]", where 'a = int]
    unfolding e by simp
qed

subsection \<open>\<^verbatim>\<open>location\<close> and \<^verbatim>\<open>index\<close> are inverse to each other\<close>

text \<open>
  C5. For a tensor as the constructor makes it, with positive dimensions: (1) for every
  flat offset \<open>x\<close> with \<open>0 \<le> x < nelem\<close>, \<^verbatim>\<open>index(x)\<close> returns valid coordinates and
  \<^verbatim>\<open>location\<close> of them returns \<open>x\<close>; (2) for every valid coordinate tuple \<open>c\<close>,
  \<^verbatim>\<open>location(c)\<close> returns a flat offset in \<open>[0, nelem)\<close> and \<^verbatim>\<open>index\<close> of it returns \<open>c\<close>.
\<close>

theorem location_index_inverse:
  assumes "invar t" "positive_dims t"
  shows "(0 \<le> x \<and> x < nelem t \<longrightarrow>
            (\<exists>c. index t x = Inr c \<and> valid_coords t c \<and> location t c = Inr x)) \<and>
         (valid_coords t c \<longrightarrow>
            (\<exists>y. location t c = Inr y \<and> 0 \<le> y \<and> y < nelem t \<and> index t y = Inr c))"
proof (intro conjI impI)
  assume x: "0 \<le> x \<and> x < nelem t"
  from index_digits[OF assms(2), of x] x obtain r where
    r: "index t x = Inr r" "length r = length (dim t)"
    and rn: "\<forall>j<length (dim t). r ! j = (x div prod_list (drop (Suc j) (dim t))) mod dim t ! j"
    by blast
  have "valid_coords t r"
    unfolding valid_coords_def list_all2_conv_all_nth
    using r(2) rn positive_dims_nth[OF assms(2)] by simp
  moreover have "location t r = Inr x"
  proof -
    have "location t r = Inr (\<Sum>j<length (dim t). prod_list (drop (Suc j) (dim t)) * r ! j)"
      using assms(1) r(2) by (rule location_sum)
    also have "(\<Sum>j<length (dim t). prod_list (drop (Suc j) (dim t)) * r ! j)
        = (\<Sum>j<length (dim t). prod_list (drop (Suc j) (dim t)) *
              ((x div prod_list (drop (Suc j) (dim t))) mod dim t ! j))"
      using rn by simp
    also have "\<dots> = x mod prod_list (dim t)"
      using positive_dims_set[OF assms(2)] by (rule radix_sum_mod)
    also have "\<dots> = x" using x invar_nelem[OF assms(1)] by simp
    finally show ?thesis .
  qed
  ultimately show "\<exists>c. index t x = Inr c \<and> valid_coords t c \<and> location t c = Inr x"
    using r(1) by blast
next
  assume c: "valid_coords t c"
  then have len: "length c = length (dim t)"
    by (simp add: valid_coords_def list_all2_lengthD)
  define y where "y = (\<Sum>j<length (dim t). prod_list (drop (Suc j) (dim t)) * c ! j)"
  have loc: "location t c = Inr y"
    unfolding y_def using assms(1) len by (rule location_sum)
  from radix_digits[OF c[unfolded valid_coords_def]]
  have y0: "0 \<le> y" and yn: "y < prod_list (dim t)"
    and dig: "\<forall>j<length (dim t). (y div prod_list (drop (Suc j) (dim t))) mod dim t ! j = c ! j"
    by (simp_all add: y_def)
  from index_digits[OF assms(2) y0] obtain r where
    r: "index t y = Inr r" "length r = length (dim t)"
    and rn: "\<forall>j<length (dim t). r ! j = (y div prod_list (drop (Suc j) (dim t))) mod dim t ! j"
    by blast
  have "r = c"
    using r(2) len rn dig by (intro nth_equalityI) simp_all
  then show "\<exists>y. location t c = Inr y \<and> 0 \<le> y \<and> y < nelem t \<and> index t y = Inr c"
    using loc y0 yn r(1) invar_nelem[OF assms(1)] by auto
qed

theorem location_index_inverse_witness:
  "invar \<lparr>offsets = [15, 5, 1], nelem = 30, dim = [2, 3, 5], vec = replicate 30 (0 :: int)\<rparr> \<and>
   positive_dims \<lparr>offsets = [15, 5, 1], nelem = 30, dim = [2, 3, 5], vec = replicate 30 (0 :: int)\<rparr> \<and>
   (0::int) \<le> 28 \<and>
   28 < nelem \<lparr>offsets = [15, 5, 1], nelem = 30, dim = [2, 3, 5], vec = replicate 30 (0 :: int)\<rparr> \<and>
   valid_coords \<lparr>offsets = [15, 5, 1], nelem = 30, dim = [2, 3, 5], vec = replicate 30 (0 :: int)\<rparr> [1, 2, 3] \<and>
   index \<lparr>offsets = [15, 5, 1], nelem = 30, dim = [2, 3, 5], vec = replicate 30 (0 :: int)\<rparr> 28 = Inr [1, 2, 3] \<and>
   location \<lparr>offsets = [15, 5, 1], nelem = 30, dim = [2, 3, 5], vec = replicate 30 (0 :: int)\<rparr> [1, 2, 3] = Inr 28"
proof -
  let ?t = "\<lparr>offsets = [15, 5, 1], nelem = 30, dim = [2, 3, 5], vec = replicate 30 (0 :: int)\<rparr>"
  have i: "invar ?t" by code_simp
  have p: "positive_dims ?t" by code_simp
  have v: "valid_coords ?t [1, 2, 3]" by code_simp
  have x: "index ?t 28 = Inr [1, 2, 3]" by code_simp
  from location_index_inverse[OF i p, of 28 "[1, 2, 3]"] i p v x show ?thesis
    by auto
qed

subsection \<open>Tensor arithmetic on different shapes\<close>

text \<open>
  C6. When the \<open>dim\<close> sequences of \<open>a\<close> and \<open>b\<close> differ, each of the compound operators
  \<^verbatim>\<open>+=\<close>, \<^verbatim>\<open>-=\<close>, \<^verbatim>\<open>*=\<close> fails its assertion (the shape mismatch error of the
  specification) before it writes anything: the tensor at the failure is \<open>a\<close> itself. The
  free operators \<^verbatim>\<open>+\<close>, \<^verbatim>\<open>-\<close>, \<^verbatim>\<open>*\<close> fail the same way; they work on a copy of \<open>a\<close>, and
  \<open>b\<close> is a \<^verbatim>\<open>const\<close> reference everywhere, so neither operand is modified.
\<close>

theorem shape_mismatch_fails:
  assumes "dim a \<noteq> dim b"
  shows "op_plus_assign a b = Inl (AssertionFailed, a) \<and>
         op_minus_assign a b = Inl (AssertionFailed, a) \<and>
         op_times_assign a b = Inl (AssertionFailed, a) \<and>
         op_plus a b = Inl AssertionFailed \<and>
         op_minus a b = Inl AssertionFailed \<and>
         op_times a b = Inl AssertionFailed"
  using assms
  by (simp add: op_plus_assign_def op_minus_assign_def op_times_assign_def
        op_plus_def op_minus_def op_times_def)

theorem shape_mismatch_fails_witness:
  "dim \<lparr>offsets = [1], nelem = 2, dim = [2], vec = [1, 2 :: int]\<rparr> \<noteq>
     dim \<lparr>offsets = [1], nelem = 3, dim = [3], vec = [4, 5, 6 :: int]\<rparr> \<and>
   op_plus_assign \<lparr>offsets = [1], nelem = 2, dim = [2], vec = [1, 2 :: int]\<rparr>
       \<lparr>offsets = [1], nelem = 3, dim = [3], vec = [4, 5, 6]\<rparr> =
     Inl (AssertionFailed, \<lparr>offsets = [1], nelem = 2, dim = [2], vec = [1, 2]\<rparr>) \<and>
   op_minus \<lparr>offsets = [1], nelem = 2, dim = [2], vec = [1, 2 :: int]\<rparr>
       \<lparr>offsets = [1], nelem = 3, dim = [3], vec = [4, 5, 6]\<rparr> = Inl AssertionFailed"
proof -
  let ?a = "\<lparr>offsets = [1], nelem = 2, dim = [2], vec = [1, 2 :: int]\<rparr>"
  let ?b = "\<lparr>offsets = [1], nelem = 3, dim = [3], vec = [4, 5, 6 :: int]\<rparr>"
  have d: "dim ?a \<noteq> dim ?b" by simp
  from shape_mismatch_fails[OF d] d show ?thesis by blast
qed

subsection \<open>The length of \<^verbatim>\<open>plane\<close>\<close>

text \<open>
  C7. For a tensor as the constructor makes it, with positive dimensions, and an axis
  counted from the right with \<open>0 \<le> axis < rank\<close>, \<^verbatim>\<open>plane(axis, k)\<close> returns a sequence
  of exactly \<open>nelem / dim[rank-1-axis]\<close> flat offsets. They are pairwise distinct, and they
  are exactly the offsets of the elements whose coordinate on that axis is \<open>0\<close>, each
  shifted by \<open>k * offsets[rank-1-axis]\<close>: one representative for every line parallel to
  the axis.
\<close>

theorem plane_length:
  assumes "invar t" "positive_dims t" "0 \<le> axis" "axis < int (length (dim t))"
  shows "\<exists>locs. plane t axis k = Inr locs \<and>
           int (length locs) = nelem t div dim t ! (length (dim t) - 1 - nat axis) \<and>
           distinct locs \<and>
           (\<forall>l. l \<in> set locs \<longleftrightarrow>
              (\<exists>x c. l = x + k * offsets t ! (length (dim t) - 1 - nat axis) \<and>
                     0 \<le> x \<and> x < nelem t \<and> index t x = Inr c \<and>
                     c ! (length (dim t) - 1 - nat axis) = 0))"
proof -
  define a where "a = length (dim t) - 1 - nat axis"
  define s where "s = offsets t ! a"
  define d where "d = dim t ! a"
  define P where "P = (\<lambda>j. (j div s) mod d = 0)"
  define base where "base = filter P [0..nelem t - 1]"
  define locs where "locs = map (\<lambda>j. j + k * s) base"
  have a: "a < length (dim t)" and ia: "int (length (dim t)) - 1 - axis = int a"
    using assms(3,4) by (auto simp: a_def)
  have pos: "\<forall>x\<in>set (dim t). 0 < x" using assms(2) by (rule positive_dims_set)
  have nel: "nelem t = prod_list (dim t)" using assms(1) by (rule invar_nelem)
  have n0: "0 \<le> nelem t" using nel prod_list_pos[OF pos] by simp
  have pl: "plane t axis k = Inr locs"
    using plane_loop_filter[OF assms(1,2) a, of 0 k "[]"] n0
    by (simp add: plane_def ia locs_def base_def P_def s_def d_def)
  have s: "s = prod_list (drop (Suc a) (dim t))"
    using assms(1) a by (simp add: s_def invar_offsets)
  have spos: "0 < s"
    unfolding s using pos by (intro prod_list_pos) (auto dest: in_set_dropD)
  have dpos: "0 < d" using assms(2) a by (simp add: d_def positive_dims_nth)
  define H where "H = nat (prod_list (take a (dim t)))"
  have Hpos: "0 < prod_list (take a (dim t))"
    using pos by (intro prod_list_pos) (auto dest: in_set_takeD)
  have nH: "nelem t = int H * (d * s)"
    using prod_list_split[OF a] Hpos by (simp add: nel H_def d_def s)
  have "length base = card {x. 0 \<le> x \<and> x < nelem t \<and> P x}"
    unfolding base_def by (rule length_filter_upto)
  also have "\<dots> = H * nat s"
    unfolding nH P_def using spos dpos by (rule card_axis_zero)
  finally have "int (length locs) = int H * s"
    using spos by (simp add: locs_def)
  moreover have "nelem t div d = int H * s"
    unfolding nH using dpos by simp
  ultimately have len: "int (length locs) = nelem t div d" by simp
  have "distinct base" by (simp add: base_def)
  then have dist: "distinct locs"
    unfolding locs_def by (simp add: distinct_map inj_on_def)
  have mem: "l \<in> set locs \<longleftrightarrow>
      (\<exists>x c. l = x + k * s \<and> 0 \<le> x \<and> x < nelem t \<and> index t x = Inr c \<and> c ! a = 0)" for l
  proof
    assume "l \<in> set locs"
    then obtain x where x: "l = x + k * s" "0 \<le> x" "x < nelem t" "P x"
      by (auto simp: locs_def base_def)
    from index_digits[OF assms(2) x(2)] obtain c where
      "index t x = Inr c" "c ! a = (x div s) mod d"
      using a by (auto simp: s d_def)
    then show "\<exists>x c. l = x + k * s \<and> 0 \<le> x \<and> x < nelem t \<and> index t x = Inr c \<and> c ! a = 0"
      using x by (auto simp: P_def)
  next
    assume "\<exists>x c. l = x + k * s \<and> 0 \<le> x \<and> x < nelem t \<and> index t x = Inr c \<and> c ! a = 0"
    then obtain x c where x: "l = x + k * s" "0 \<le> x" "x < nelem t" "index t x = Inr c" "c ! a = 0"
      by blast
    from index_digits[OF assms(2) x(2)] x(4) have "c ! a = (x div s) mod d"
      using a by (auto simp: s d_def)
    then have "P x" using x(5) by (simp add: P_def)
    then show "l \<in> set locs" using x by (auto simp: locs_def base_def)
  qed
  show ?thesis
    using pl len dist mem unfolding a_def[symmetric] d_def s_def by blast
qed

theorem plane_length_witness:
  "invar \<lparr>offsets = [15, 5, 1], nelem = 30, dim = [2, 3, 5], vec = replicate 30 (0 :: int)\<rparr> \<and>
   positive_dims \<lparr>offsets = [15, 5, 1], nelem = 30, dim = [2, 3, 5], vec = replicate 30 (0 :: int)\<rparr> \<and>
   (0::int) \<le> 1 \<and>
   1 < int (length (dim \<lparr>offsets = [15, 5, 1], nelem = 30, dim = [2, 3, 5], vec = replicate 30 (0 :: int)\<rparr>)) \<and>
   plane \<lparr>offsets = [15, 5, 1], nelem = 30, dim = [2, 3, 5], vec = replicate 30 (0 :: int)\<rparr> 1 0
     = Inr [0, 1, 2, 3, 4, 15, 16, 17, 18, 19] \<and>
   int (length [0, 1, 2, 3, 4, 15, 16, 17, 18, 19 :: int]) = 30 div [2, 3, 5] ! (3 - 1 - nat 1)"
proof -
  let ?t = "\<lparr>offsets = [15, 5, 1], nelem = 30, dim = [2, 3, 5], vec = replicate 30 (0 :: int)\<rparr>"
  have i: "invar ?t" by code_simp
  have p: "positive_dims ?t" by code_simp
  have pl: "plane ?t 1 0 = Inr [0, 1, 2, 3, 4, 15, 16, 17, 18, 19]" by code_simp
  have a: "(0::int) \<le> 1" "(1::int) < int (length (dim ?t))" by simp_all
  from plane_length[OF i p a, of 0] pl
  have "int (length [0, 1, 2, 3, 4, 15, 16, 17, 18, 19 :: int]) = 30 div [2, 3, 5] ! (3 - 1 - nat 1)"
    by auto
  with i p pl a show ?thesis by blast
qed

subsection \<open>\<^verbatim>\<open>repeat_inner\<close>\<close>



subsection \<open>In-place operations and the shape\<close>

text \<open>
  C9. The claim: every in-place operation, \<^verbatim>\<open>transform\<close> and the compound operators with
  a tensor or a scalar, leaves \<open>dim\<close>, \<open>offsets\<close> and \<open>nelem\<close> unchanged and changes only
  element values. The compound operators of the source do not get that far: \<^verbatim>\<open>a += b\<close> on
  two tensors of shape \<open>[2]\<close> writes the sums \<open>4, 6\<close> and then reaches the end of
  \<^verbatim>\<open>operator+=\<close>, which has no \<^verbatim>\<open>return\<close> statement, and \<^verbatim>\<open>a *= 3\<close> does the same after
  writing \<open>3, 6\<close>. (The writes themselves keep the shape, and \<^verbatim>\<open>transform\<close>, a \<^verbatim>\<open>void\<close>
  method, keeps it throughout: \<open>transform_shape\<close>, \<open>compound_tensor_shape\<close>,
  \<open>compound_scalar_shape\<close>.)
\<close>

theorem compound_operators_missing_return:
  "op_plus_assign \<lparr>offsets = [1], nelem = 2, dim = [2], vec = [1, 2 :: int]\<rparr>
       \<lparr>offsets = [1], nelem = 2, dim = [2], vec = [3, 4]\<rparr> =
     Inl (MissingReturn, \<lparr>offsets = [1], nelem = 2, dim = [2], vec = [4, 6]\<rparr>) \<and>
   op_times_assign_scalar \<lparr>offsets = [1], nelem = 2, dim = [2], vec = [1, 2 :: int]\<rparr> 3 =
     Inl (MissingReturn, \<lparr>offsets = [1], nelem = 2, dim = [2], vec = [3, 6]\<rparr>)"
  by (simp add: op_plus_assign_def std_transform2_def op_times_assign_scalar_def)

subsection \<open>The seed of \<^verbatim>\<open>max_dim\<close>\<close>

text \<open>
  C10. \<^verbatim>\<open>max_dim\<close> reads \<^verbatim>\<open>vec[1]\<close> for its seed before anything else. On a tensor with
  fewer than two elements, \<open>nelem = 1\<close> or \<open>nelem = 0\<close>, that read is outside the buffer and
  the call fails there, whatever the axis; on a tensor with two elements or more the
  read returns the element at offset \<open>1\<close> and the call is \<^verbatim>\<open>accumulate\<close> with that seed.
\<close>

theorem max_dim_seed_out_of_bounds:
  assumes "invar t"
  shows "(nelem t < 2 \<longrightarrow>
            vec_at t 1 = Inl OutOfBounds \<and> max_dim t axis = Inl OutOfBounds) \<and>
         (2 \<le> nelem t \<longrightarrow>
            vec_at t 1 = Inr (vec t ! 1) \<and>
            max_dim t axis = accumulate t (vec t ! 1) axis max [])"
  using assms by (auto simp: max_dim_def vec_at_def invar_def)

theorem max_dim_seed_out_of_bounds_witness:
  "invar \<lparr>offsets = [1], nelem = 1, dim = [1], vec = [7 :: int]\<rparr> \<and>
   nelem \<lparr>offsets = [1], nelem = 1, dim = [1], vec = [7 :: int]\<rparr> < 2 \<and>
   max_dim \<lparr>offsets = [1], nelem = 1, dim = [1], vec = [7 :: int]\<rparr> 0 = Inl OutOfBounds \<and>
   invar \<lparr>offsets = [1], nelem = 0, dim = [0], vec = [] :: int list\<rparr> \<and>
   nelem \<lparr>offsets = [1], nelem = 0, dim = [0], vec = [] :: int list\<rparr> < 2 \<and>
   max_dim \<lparr>offsets = [1], nelem = 0, dim = [0], vec = [] :: int list\<rparr> 0 = Inl OutOfBounds \<and>
   invar \<lparr>offsets = [2, 1], nelem = 4, dim = [2, 2], vec = [7, - 3, - 5, - 1 :: int]\<rparr> \<and>
   2 \<le> nelem \<lparr>offsets = [2, 1], nelem = 4, dim = [2, 2], vec = [7, - 3, - 5, - 1 :: int]\<rparr> \<and>
   vec_at \<lparr>offsets = [2, 1], nelem = 4, dim = [2, 2], vec = [7, - 3, - 5, - 1 :: int]\<rparr> 1 =
     Inr (- 3) \<and>
   max_dim \<lparr>offsets = [2, 1], nelem = 4, dim = [2, 2], vec = [7, - 3, - 5, - 1 :: int]\<rparr> 0 =
     accumulate \<lparr>offsets = [2, 1], nelem = 4, dim = [2, 2], vec = [7, - 3, - 5, - 1 :: int]\<rparr>
       (- 3) 0 max []"
proof -
  let ?t1 = "\<lparr>offsets = [1], nelem = 1, dim = [1], vec = [7 :: int]\<rparr>"
  let ?t0 = "\<lparr>offsets = [1], nelem = 0, dim = [0], vec = [] :: int list\<rparr>"
  let ?t2 = "\<lparr>offsets = [2, 1], nelem = 4, dim = [2, 2], vec = [7, - 3, - 5, - 1 :: int]\<rparr>"
  have i1: "invar ?t1" by code_simp
  have i0: "invar ?t0" by code_simp
  have i2: "invar ?t2" by code_simp
  from max_dim_seed_out_of_bounds[OF i1, of 0] max_dim_seed_out_of_bounds[OF i0, of 0]
    max_dim_seed_out_of_bounds[OF i2, of 0] i1 i0 i2
  show ?thesis by simp
qed

end
